theory Spec2Isabelle
  imports Main
begin

section \<open>Python values, errors and the built-ins the module uses\<close>

text \<open>
  The module \<^verbatim>\<open>doxhub/utils/version.py\<close> works on a version tuple whose elements are
  integers and strings. A tuple is a list of values; the optional argument
  \<^verbatim>\<open>version=None\<close> is an \<open>option\<close>. Python integers are unbounded, hence \<open>int\<close>.
  Equality between an integer and a string is false in Python, as it is between \<open>PInt\<close>
  and \<open>PStr\<close>.
\<close>

datatype pyval = PInt int | PStr string

datatype py_error =
  AssertionError | IndexError | KeyError | ValueError | OverflowError | OSError

text \<open>\<^verbatim>\<open>version[i]\<close> for a literal index \<open>i \<ge> 0\<close>: out of range raises IndexError.\<close>

definition index :: "'a list \<Rightarrow> nat \<Rightarrow> py_error + 'a" where
  "index xs i = (if i < length xs then Inr (xs ! i) else Inl IndexError)"

text \<open>
  A string is a list of characters, each a code point below 256; text with other code
  points is outside the model.

  The decimal digits of a number, most significant first, \<open>-\<close> in front of a negative one.
\<close>

definition digit_char :: "nat \<Rightarrow> char" where
  "digit_char d = ''0123456789'' ! d"

fun digits_of :: "nat \<Rightarrow> string" where
  "digits_of n = (if n < 10 then [digit_char n] else digits_of (n div 10) @ [digit_char (n mod 10)])"

declare digits_of.simps [simp del]

definition decimal :: "int \<Rightarrow> string" where
  "decimal i = (if i < 0 then CHR ''-'' # digits_of (nat (- i)) else digits_of (nat i))"

text \<open>
  \<^verbatim>\<open>str(n)\<close> of an integer is its decimal form, unless it has more digits than the
  interpreter's limit on conversions between integers and strings (4300 by default, the
  sign not counted): then it raises ValueError. \<^verbatim>\<open>str(s)\<close> of a string is the string.
\<close>

definition max_str_digits :: nat where
  "max_str_digits = 4300"

definition str_int :: "int \<Rightarrow> py_error + string" where
  "str_int i =
     (if max_str_digits < length (digits_of (nat \<bar>i\<bar>)) then Inl ValueError
      else Inr (decimal i))"

fun py_str :: "pyval \<Rightarrow> py_error + string" where
  "py_str (PInt i) = str_int i"
| "py_str (PStr s) = Inr s"

text \<open>\<^verbatim>\<open>str(x) for x in xs\<close>, consumed from left to right: the first \<^verbatim>\<open>str\<close> that raises
  ends it.\<close>

fun str_all :: "pyval list \<Rightarrow> py_error + string list" where
  "str_all [] = Inr []"
| "str_all (x # xs) =
     (case py_str x of
        Inl e \<Rightarrow> Inl e
      | Inr s \<Rightarrow> (case str_all xs of Inl e \<Rightarrow> Inl e | Inr ss \<Rightarrow> Inr (s # ss)))"

text \<open>\<^verbatim>\<open>sep.join(parts)\<close>.\<close>

fun join :: "string \<Rightarrow> string list \<Rightarrow> string" where
  "join sep [] = []"
| "join sep [x] = x"
| "join sep (x # y # ys) = x @ sep @ join sep (y # ys)"

section \<open>The version formatter\<close>

text \<open>
  \<^verbatim>\<open>
  def get_complete_version(version=None):
      if version is None:
          from doxhub import VERSION as version
      else:
          assert len(version) == 5
          assert version[3] in ('alpha', 'beta', 'rc', 'release')
      return version
  \<close>
  The package constant \<^verbatim>\<open>doxhub.VERSION\<close> is not part of the module; it is the
  parameter \<open>VERSION\<close>.
\<close>

definition release_kinds :: "pyval list" where
  "release_kinds = [PStr ''alpha'', PStr ''beta'', PStr ''rc'', PStr ''release'']"

definition get_complete_version :: "pyval list \<Rightarrow> pyval list option \<Rightarrow> py_error + pyval list" where
  "get_complete_version VERSION version =
     (case version of
        None \<Rightarrow> Inr VERSION
      | Some v \<Rightarrow>
          if length v \<noteq> 5 then Inl AssertionError
          else (case index v 3 of
                  Inl e \<Rightarrow> Inl e
                | Inr kind \<Rightarrow>
                    if kind \<in> set release_kinds then Inr v else Inl AssertionError))"

text \<open>
  \<^verbatim>\<open>
  def get_main_version(version=None):
      version = get_complete_version(version)
      parts = 2 if version[2] == 0 else 3
      return ".".join(str(x) for x in version[:parts])
  \<close>
  A slice never raises: \<^verbatim>\<open>version[:parts]\<close> is \<open>take parts version\<close>.
\<close>

definition get_main_version :: "pyval list \<Rightarrow> pyval list option \<Rightarrow> py_error + string" where
  "get_main_version VERSION version =
     (case get_complete_version VERSION version of
        Inl e \<Rightarrow> Inl e
      | Inr v \<Rightarrow>
          (case index v 2 of
             Inl e \<Rightarrow> Inl e
           | Inr micro \<Rightarrow>
               (let parts = (if micro = PInt 0 then 2 else 3)
                in case str_all (take parts v) of
                     Inl e \<Rightarrow> Inl e
                   | Inr ss \<Rightarrow> Inr (join ''.'' ss))))"

text \<open>
  The descriptor of the specification: five elements, the first three and the last
  non-negative integers, the fourth one of the four release kinds.
\<close>

definition is_nonneg_int :: "pyval \<Rightarrow> bool" where
  "is_nonneg_int x = (case x of PInt i \<Rightarrow> 0 \<le> i | PStr _ \<Rightarrow> False)"

definition valid_descriptor :: "pyval list \<Rightarrow> bool" where
  "valid_descriptor v =
     (length v = 5 \<and> is_nonneg_int (v ! 0) \<and> is_nonneg_int (v ! 1) \<and> is_nonneg_int (v ! 2)
      \<and> v ! 3 \<in> set release_kinds \<and> is_nonneg_int (v ! 4))"

section \<open>The changeset resolver\<close>

subsection \<open>\<^verbatim>\<open>int(text)\<close>\<close>

text \<open>
  \<^verbatim>\<open>int(s)\<close> of a string, base 10: surrounding whitespace is dropped, one sign is
  allowed, then come decimal digits, groups of them separated by single underscores.
  Anything else raises ValueError, and so does a literal of more than 4300 digits;
  \<open>None\<close> stands for that ValueError. Among the code points below 256 the whitespace
  \<^verbatim>\<open>int\<close> drops is space, tab, line feed, vertical tab, form feed, carriage return, and
  the two non-ASCII spaces U+0085 and U+00A0; the only decimal digits are \<open>0\<close> to \<open>9\<close>.
\<close>

definition is_space :: "char \<Rightarrow> bool" where
  "is_space c =
     (c \<in> set [CHR '' '', CHR 0x09, CHR 0x0A, CHR 0x0B, CHR 0x0C, CHR 0x0D, CHR 0x85, CHR 0xA0])"

definition is_digit :: "char \<Rightarrow> bool" where
  "is_digit c = (c \<in> set ''0123456789'')"

definition digit_val :: "char \<Rightarrow> int" where
  "digit_val c = of_char c - 48"

definition strip :: "string \<Rightarrow> string" where
  "strip s = rev (dropWhile is_space (rev (dropWhile is_space s)))"

text \<open>Digits with single underscores between them, never first, last or doubled.\<close>

fun digit_groups :: "string \<Rightarrow> bool" where
  "digit_groups [] = False"
| "digit_groups [c] = is_digit c"
| "digit_groups (c # d # cs) =
     (is_digit c \<and> (if d = CHR ''_'' then digit_groups cs else digit_groups (d # cs)))"

definition parse_digits :: "string \<Rightarrow> int option" where
  "parse_digits s =
     (let ds = filter is_digit s
      in if digit_groups s \<and> length ds \<le> max_str_digits
         then Some (foldl (\<lambda>a c. 10 * a + digit_val c) 0 ds)
         else None)"

definition py_int :: "string \<Rightarrow> int option" where
  "py_int s =
     (case strip s of
        [] \<Rightarrow> None
      | c # cs \<Rightarrow>
          if c = CHR ''-'' then map_option uminus (parse_digits cs)
          else if c = CHR ''+'' then parse_digits cs
          else parse_digits (c # cs))"

subsection \<open>\<^verbatim>\<open>datetime.fromtimestamp(t, tz=utc)\<close> and \<^verbatim>\<open>strftime\<close>\<close>

text \<open>
  The date of a day number follows the library's own reference implementation
  (\<^verbatim>\<open>_ord2ymd\<close>, proleptic Gregorian calendar, day 1 is 0001-01-01); \<open>div\<close> and \<open>mod\<close>
  on \<open>int\<close> round down as Python's \<^verbatim>\<open>divmod\<close> does.
\<close>

record datetime =
  year :: int
  month :: int
  day :: int
  hour :: int
  minute :: int
  second :: int

definition days_before_month :: "int list" where
  "days_before_month = [-1, 0, 31, 59, 90, 120, 151, 181, 212, 243, 273, 304, 334]"

definition days_in_month :: "int list" where
  "days_in_month = [-1, 31, 28, 31, 30, 31, 30, 31, 31, 30, 31, 30, 31]"

definition ord2ymd :: "int \<Rightarrow> int \<times> int \<times> int" where
  "ord2ymd ordinal =
     (let n = ordinal - 1;
          n400 = n div 146097; n = n mod 146097;
          n100 = n div 36524; n = n mod 36524;
          n4 = n div 1461; n = n mod 1461;
          n1 = n div 365; n = n mod 365;
          y = n400 * 400 + 1 + n100 * 100 + n4 * 4 + n1
      in if n1 = 4 \<or> n100 = 4 then (y - 1, 12, 31)
         else
           let leapyear = (n1 = 3 \<and> (n4 \<noteq> 24 \<or> n100 = 3));
               m = (n + 50) div 32;
               preceding = days_before_month ! nat m + (if 2 < m \<and> leapyear then 1 else 0)
           in if n < preceding
              then let m' = m - 1;
                       preceding' = preceding -
                         (days_in_month ! nat m' + (if m' = 2 \<and> leapyear then 1 else 0))
                   in (y, m', n - preceding' + 1)
              else (y, m, n - preceding + 1))"

text \<open>
  \<^verbatim>\<open>fromtimestamp\<close> of an integer with a time zone of UTC, on a platform with a 64-bit
  \<^verbatim>\<open>time_t\<close>: a timestamp that does not fit raises OverflowError, one whose year does
  not fit the C \<^verbatim>\<open>int\<close> of \<^verbatim>\<open>struct tm\<close> makes \<^verbatim>\<open>gmtime\<close> fail (OSError), and a
  year outside 1..9999 raises ValueError.
\<close>

definition fromtimestamp_utc :: "int \<Rightarrow> py_error + datetime" where
  "fromtimestamp_utc t =
     (if t < - (2 ^ 63) \<or> 2 ^ 63 \<le> t then Inl OverflowError
      else
        let days = t div 86400; secs = t mod 86400;
            (y, m, d) = ord2ymd (days + 719163)
        in if y - 1900 < - (2 ^ 31) \<or> 2 ^ 31 \<le> y - 1900 then Inl OSError
           else if y < 1 \<or> 9999 < y then Inl ValueError
           else Inr \<lparr>year = y, month = m, day = d,
                      hour = secs div 3600, minute = (secs mod 3600) div 60,
                      second = secs mod 60\<rparr>)"

text \<open>
  \<^verbatim>\<open>strftime("%Y%m%d%H%M%S")\<close> hands the directives to the C library. There
  \<^verbatim>\<open>%m\<close>, \<^verbatim>\<open>%d\<close>, \<^verbatim>\<open>%H\<close>, \<^verbatim>\<open>%M\<close> and \<^verbatim>\<open>%S\<close> are the field in decimal, padded with
  a zero to two digits, and \<^verbatim>\<open>%Y\<close> is the year in decimal as it is: the GNU C library
  does not pad it, so a year below 1000 has fewer than four digits.
\<close>

definition zero_pad :: "nat \<Rightarrow> int \<Rightarrow> string" where
  "zero_pad w i = (let s = decimal i in replicate (w - length s) CHR ''0'' @ s)"

definition strftime :: "datetime \<Rightarrow> string" where
  "strftime dt =
     decimal (year dt) @ zero_pad 2 (month dt) @ zero_pad 2 (day dt)
     @ zero_pad 2 (hour dt) @ zero_pad 2 (minute dt) @ zero_pad 2 (second dt)"

subsection \<open>The process and its environment\<close>

text \<open>
  What the resolver reads from outside: whether \<^verbatim>\<open>__file__\<close> is among the module's
  globals, and what the \<open>k\<close>-th run of the git command gives back (its captured output,
  or the exception \<^verbatim>\<open>subprocess.run\<close> raises). What it changes: the slot of
  \<^verbatim>\<open>functools.lru_cache\<close> for the empty argument list with the cache's hit and miss
  counters, and the number of subprocesses started.
\<close>

record env =
  file_defined :: bool
  git_log :: "nat \<Rightarrow> py_error + string"

record state =
  cache :: "string option option"
  hits :: nat
  misses :: nat
  subprocess_calls :: nat

text \<open>
  The undecorated body:
  \<^verbatim>\<open>
      if "__file__" not in globals():
          return None
      repo_dir = os.path.dirname(os.path.dirname(os.path.abspath(__file__)))
      git_log = subprocess.run("git log --pretty=format:%ct --quiet -1 HEAD", ...)
      timestamp = git_log.stdout
      tz = datetime.timezone.utc
      try:
          timestamp = datetime.datetime.fromtimestamp(int(timestamp), tz=tz)
      except ValueError:
          return None
      return timestamp.strftime("%Y%m%d%H%M%S")
  \<close>
  Only ValueError is caught; any other exception leaves the function.
\<close>

definition get_git_changeset_body :: "env \<Rightarrow> state \<Rightarrow> (py_error + string option) \<times> state" where
  "get_git_changeset_body e s =
     (if \<not> file_defined e then (Inr None, s)
      else
        let s' = s\<lparr>subprocess_calls := subprocess_calls s + 1\<rparr>
        in case git_log e (subprocess_calls s) of
             Inl err \<Rightarrow> (Inl err, s')
           | Inr stdout \<Rightarrow>
               (case py_int stdout of
                  None \<Rightarrow> (Inr None, s')
                | Some t \<Rightarrow>
                    (case fromtimestamp_utc t of
                       Inl err \<Rightarrow> if err = ValueError then (Inr None, s') else (Inl err, s')
                     | Inr dt \<Rightarrow> (Inr (Some (strftime dt)), s'))))"

text \<open>
  \<^verbatim>\<open>@functools.lru_cache\<close> around a function of no arguments: a stored result is
  returned without running the body; otherwise the body runs, and its result is stored
  only if it returns. An exception passes through and nothing is stored.
\<close>

definition get_git_changeset :: "env \<Rightarrow> state \<Rightarrow> (py_error + string option) \<times> state" where
  "get_git_changeset e s =
     (case cache s of
        Some r \<Rightarrow> (Inr r, s\<lparr>hits := hits s + 1\<rparr>)
      | None \<Rightarrow>
          (case get_git_changeset_body e (s\<lparr>misses := misses s + 1\<rparr>) of
             (Inl err, s') \<Rightarrow> (Inl err, s')
           | (Inr r, s') \<Rightarrow> (Inr r, s'\<lparr>cache := Some r\<rparr>)))"

section \<open>The full version string\<close>

text \<open>
  \<^verbatim>\<open>
  def get_version(version=None):
      version = get_complete_version(version)
      main = get_main_version(version)
      sub = ""
      if version[3] == 'alpha' and version[4] == 0:
          git_changeset = get_git_changeset()
          if git_changeset:
              sub = ".dev%s" % git_changeset
      elif version[3] != "release":
          mapping = {'alpha': 'a', 'beta': 'b', 'rc': 'rc'}
          sub = mapping[version[3]] + str(version[4])
      return main + sub
  \<close>
\<close>

definition mapping :: "pyval \<rightharpoonup> string" where
  "mapping = [PStr ''alpha'' \<mapsto> ''a'', PStr ''beta'' \<mapsto> ''b'', PStr ''rc'' \<mapsto> ''rc'']"

text \<open>Truth value of an optional string: \<^verbatim>\<open>None\<close> and the empty string are false.\<close>

definition truthy :: "string option \<Rightarrow> bool" where
  "truthy r = (case r of None \<Rightarrow> False | Some s \<Rightarrow> s \<noteq> [])"

text \<open>\<^verbatim>\<open>version[3] == 'alpha' and version[4] == 0\<close>: the right operand is evaluated only
  when the left one is true.\<close>

definition is_dev_build :: "pyval list \<Rightarrow> py_error + bool" where
  "is_dev_build v =
     (case index v 3 of
        Inl e \<Rightarrow> Inl e
      | Inr kind \<Rightarrow>
          if kind = PStr ''alpha''
          then (case index v 4 of Inl e \<Rightarrow> Inl e | Inr serial \<Rightarrow> Inr (serial = PInt 0))
          else Inr False)"

definition short_code_suffix :: "pyval list \<Rightarrow> py_error + string" where
  "short_code_suffix v =
     (case index v 3 of
        Inl e \<Rightarrow> Inl e
      | Inr kind \<Rightarrow>
          if kind \<noteq> PStr ''release''
          then (case mapping kind of
                  None \<Rightarrow> Inl KeyError
                | Some code \<Rightarrow>
                    (case index v 4 of
                       Inl e \<Rightarrow> Inl e
                     | Inr serial \<Rightarrow>
                         (case py_str serial of Inl e \<Rightarrow> Inl e | Inr n \<Rightarrow> Inr (code @ n))))
          else Inr [])"

definition get_version ::
  "pyval list \<Rightarrow> env \<Rightarrow> state \<Rightarrow> pyval list option \<Rightarrow> (py_error + string) \<times> state" where
  "get_version VERSION e s version =
     (case get_complete_version VERSION version of
        Inl err \<Rightarrow> (Inl err, s)
      | Inr v \<Rightarrow>
          (case get_main_version VERSION (Some v) of
             Inl err \<Rightarrow> (Inl err, s)
           | Inr main \<Rightarrow>
               (case is_dev_build v of
                  Inl err \<Rightarrow> (Inl err, s)
                | Inr True \<Rightarrow>
                    (case get_git_changeset e s of
                       (Inl err, s') \<Rightarrow> (Inl err, s')
                     | (Inr git_changeset, s') \<Rightarrow>
                         (Inr (main @ (if truthy git_changeset
                                       then ''.dev'' @ the git_changeset else [])), s'))
                | Inr False \<Rightarrow>
                    (case short_code_suffix v of
                       Inl err \<Rightarrow> (Inl err, s)
                     | Inr sub \<Rightarrow> (Inr (main @ sub), s)))))"

section \<open>Vocabulary of the specification\<close>

subsection \<open>Processes\<close>

text \<open>A process starts with an empty cache and nothing counted.\<close>

definition initial_state :: state where
  "initial_state = \<lparr>cache = None, hits = 0, misses = 0, subprocess_calls = 0\<rparr>"

text \<open>An environment with a source location whose git command always prints \<open>out\<close>, and
  one without a source location.\<close>

definition env_with_output :: "string \<Rightarrow> env" where
  "env_with_output out = \<lparr>file_defined = True, git_log = (\<lambda>k. Inr out)\<rparr>"

definition env_without_file :: env where
  "env_without_file = \<lparr>file_defined = False, git_log = (\<lambda>k. Inr [])\<rparr>"

text \<open>Successive calls of the resolver, the environment of each call given in turn.\<close>

fun calls :: "env list \<Rightarrow> state \<Rightarrow> (py_error + string option) list \<times> state" where
  "calls [] s = ([], s)"
| "calls (e # es) s =
     (case get_git_changeset e s of
        (r, s') \<Rightarrow> (case calls es s' of (rs, s'') \<Rightarrow> (r # rs, s'')))"


text \<open>What the resolver can store: 11 to 14 decimal digits. A cache that holds a string
  holds such a string.\<close>

definition is_resolver_output :: "string \<Rightarrow> bool" where
  "is_resolver_output ts = (11 \<le> length ts \<and> length ts \<le> 14 \<and> list_all is_digit ts)"

definition cache_inv :: "state \<Rightarrow> bool" where
  "cache_inv s =
     (case cache s of
        Some (Some ts) \<Rightarrow> is_resolver_output ts
      | _ \<Rightarrow> True)"

subsection \<open>What \<^verbatim>\<open>str\<close> prints\<close>

text \<open>A value can be printed when it is a string or an integer within the digit limit;
  what is printed is the string, or the decimal form of the integer. The main version
  needs the first two elements printed, and the third unless it is 0.\<close>

definition printable :: "pyval \<Rightarrow> bool" where
  "printable x =
     (case x of
        PInt i \<Rightarrow> length (digits_of (nat \<bar>i\<bar>)) \<le> max_str_digits
      | PStr _ \<Rightarrow> True)"

definition printed :: "pyval \<Rightarrow> string" where
  "printed x = (case x of PInt i \<Rightarrow> decimal i | PStr s \<Rightarrow> s)"

definition main_printable :: "pyval list \<Rightarrow> bool" where
  "main_printable v =
     (printable (v ! 0) \<and> printable (v ! 1) \<and> (v ! 2 = PInt 0 \<or> printable (v ! 2)))"

subsection \<open>Regular expressions\<close>

text \<open>
  The specification gives the shape of the main version as the regular expression
  \<^verbatim>\<open>^\d+\.\d+(\.\d+)?$\<close>. Regular expressions over characters, what it means for a
  whole string to match one, and a matcher that decides it by derivatives.
\<close>

datatype rexp = Nothing | Eps | Class "char list" | Seq rexp rexp | Alt rexp rexp | Star rexp

inductive matches :: "rexp \<Rightarrow> string \<Rightarrow> bool" where
  m_eps: "matches Eps []"
| m_class: "c \<in> set cs \<Longrightarrow> matches (Class cs) [c]"
| m_seq: "matches r xs \<Longrightarrow> matches q ys \<Longrightarrow> matches (Seq r q) (xs @ ys)"
| m_alt1: "matches r xs \<Longrightarrow> matches (Alt r q) xs"
| m_alt2: "matches q xs \<Longrightarrow> matches (Alt r q) xs"
| m_star0: "matches (Star r) []"
| m_star1: "matches r xs \<Longrightarrow> matches (Star r) ys \<Longrightarrow> matches (Star r) (xs @ ys)"









text \<open>The short codes of the specification: alpha is \<open>a\<close>, beta is \<open>b\<close>, rc is \<open>rc\<close>.\<close>

definition short_code :: "pyval \<Rightarrow> string" where
  "short_code kind =
     (if kind = PStr ''alpha'' then ''a'' else if kind = PStr ''beta'' then ''b'' else ''rc'')"

section \<open>Decimal digits and what \<^verbatim>\<open>str\<close> prints\<close>

lemma digit_char_is_digit: "d < 10 \<Longrightarrow> is_digit (digit_char d)"
proof -
  assume "d < 10"
  then have "d \<in> {0, 1, 2, 3, 4, 5, 6, 7, 8, 9}" by auto
  then show ?thesis by (auto simp add: is_digit_def digit_char_def)
qed

lemma digits_of_nonempty: "digits_of n \<noteq> []"
  by (subst digits_of.simps) simp

lemma digits_of_digits: "list_all is_digit (digits_of n)"
proof (induction n rule: digits_of.induct)
  case (1 n)
  show ?case
  proof (cases "n < 10")
    case True
    then show ?thesis by (subst digits_of.simps) (simp add: digit_char_is_digit)
  next
    case False
    with 1 show ?thesis by (subst digits_of.simps) (simp add: digit_char_is_digit)
  qed
qed

lemma digits_of_length: "0 < w \<Longrightarrow> n < 10 ^ w \<Longrightarrow> length (digits_of n) \<le> w"
proof (induction n arbitrary: w rule: digits_of.induct)
  case (1 n)
  show ?case
  proof (cases "n < 10")
    case True
    with 1(2) show ?thesis by (subst digits_of.simps) simp
  next
    case False
    with 1(3) have "1 < w" by (cases "w = 1") (use 1(2) in auto)
    then obtain w' where w: "w = Suc w'" and w': "0 < w'" by (cases w) auto
    from 1(3) have "n div 10 < 10 ^ w'" by (simp add: w less_mult_imp_div_less mult.commute)
    with 1(1) False w' have "length (digits_of (n div 10)) \<le> w'" by blast
    with False show ?thesis by (subst digits_of.simps) (simp add: w)
  qed
qed

lemma digits_of_length_lower: "10 ^ k \<le> n \<Longrightarrow> k < length (digits_of n)"
proof (induction k arbitrary: n)
  case 0
  show ?case using digits_of_nonempty [of n] by (cases "digits_of n") simp_all
next
  case (Suc k)
  have a: "(10::nat) \<le> 10 * 10 ^ k" by simp
  from Suc.prems have b: "10 * 10 ^ k \<le> n" by simp
  from a b have "10 \<le> n" by (rule order_trans)
  then have big: "\<not> n < 10" by simp
  from b have "(10 * 10 ^ k) div 10 \<le> n div 10" by (rule div_le_mono)
  then have "10 ^ k \<le> n div 10" by simp
  then have "k < length (digits_of (n div 10))" using Suc.IH by blast
  with big show ?case by (subst digits_of.simps) simp
qed

lemma digits_of_small: "n < 10 \<Longrightarrow> digits_of n = [digit_char n]"
  by (subst digits_of.simps) simp

lemma printable_small: "0 \<le> i \<Longrightarrow> i < 10 \<Longrightarrow> printable (PInt i)"
  by (simp add: printable_def digits_of_small max_str_digits_def)

lemma not_printable_huge: "\<not> printable (PInt (10 ^ max_str_digits))"
proof -
  have e: "nat (10 ^ max_str_digits :: int) = 10 ^ max_str_digits"
    by (simp add: nat_power_eq)
  have "max_str_digits < length (digits_of (10 ^ max_str_digits))"
    by (rule digits_of_length_lower) simp
  then show ?thesis by (simp add: printable_def e)
qed

lemma py_str_printed:
  "py_str x = (if printable x then Inr (printed x) else Inl ValueError)"
  by (cases x) (simp_all add: str_int_def printable_def printed_def not_less)

lemma decimal_small [simp]:
  "decimal 0 = ''0''" "decimal 1 = ''1''" "decimal 2 = ''2''" "decimal 3 = ''3''"
  by (simp_all add: decimal_def digits_of.simps digit_char_def)

lemma printed_small [simp]:
  "printed (PInt 0) = ''0''" "printed (PInt 1) = ''1''" "printed (PInt 2) = ''2''"
  "printed (PInt 3) = ''3''"
  by (simp_all add: printed_def)

section \<open>Properties of the version formatter\<close>

lemma length_five:
  "length v = 5 \<Longrightarrow> \<exists>a b c d e. v = [a, b, c, d, e]"
  by (auto simp add: eval_nat_numeral length_Suc_conv)

text \<open>
  Claim C2. A supplied descriptor fails with the assertion error exactly when its length
  is not 5 or its release kind (index 3, the fourth element) is not one of alpha, beta,
  rc, release; otherwise it is accepted, and returned.
\<close>

theorem get_complete_version_contract:
  "get_complete_version VERSION (Some v) =
     (if length v \<noteq> 5 \<or> v ! 3 \<notin> set release_kinds then Inl AssertionError else Inr v)"
  by (simp add: get_complete_version_def index_def)

theorem get_complete_version_contract_witness:
  "get_complete_version [] (Some [PInt 1, PInt 2, PInt 3, PStr ''bogus'', PInt 0]) = Inl AssertionError
   \<and> get_complete_version [] (Some [PInt 1, PInt 2]) = Inl AssertionError
   \<and> get_complete_version [] (Some [PInt 1, PInt 2, PInt 3, PStr ''rc'', PInt 0])
       = Inr [PInt 1, PInt 2, PInt 3, PStr ''rc'', PInt 0]"
  using get_complete_version_contract [of "[]" "[PInt 1, PInt 2, PInt 3, PStr ''bogus'', PInt 0]"]
    get_complete_version_contract [of "[]" "[PInt 1, PInt 2]"]
    get_complete_version_contract [of "[]" "[PInt 1, PInt 2, PInt 3, PStr ''rc'', PInt 0]"]
  by (simp add: release_kinds_def)

text \<open>
  Claim C9. On a valid supplied descriptor \<open>get_complete_version\<close> is the identity;
  whatever it returns for a supplied descriptor is that descriptor; the package default
  is returned when the argument is omitted.
\<close>

theorem get_complete_version_identity:
  "(valid_descriptor v \<longrightarrow> get_complete_version VERSION (Some v) = Inr v)
   \<and> (get_complete_version VERSION (Some v) = Inr r \<longrightarrow> r = v)
   \<and> get_complete_version VERSION None = Inr VERSION"
  by (auto simp add: get_complete_version_def index_def valid_descriptor_def split: if_splits)

theorem get_complete_version_identity_witness:
  "valid_descriptor [PInt 1, PInt 2, PInt 3, PStr ''beta'', PInt 4]
   \<and> get_complete_version [PInt 9, PInt 9, PInt 9, PStr ''release'', PInt 0]
         (Some [PInt 1, PInt 2, PInt 3, PStr ''beta'', PInt 4])
       = Inr [PInt 1, PInt 2, PInt 3, PStr ''beta'', PInt 4]
   \<and> get_complete_version [PInt 9, PInt 9, PInt 9, PStr ''release'', PInt 0] None
       = Inr [PInt 9, PInt 9, PInt 9, PStr ''release'', PInt 0]"
proof -
  have v: "valid_descriptor [PInt 1, PInt 2, PInt 3, PStr ''beta'', PInt 4]"
    by (simp add: valid_descriptor_def is_nonneg_int_def release_kinds_def)
  from v get_complete_version_identity
    [of "[PInt 1, PInt 2, PInt 3, PStr ''beta'', PInt 4]"
        "[PInt 9, PInt 9, PInt 9, PStr ''release'', PInt 0]"]
  show ?thesis by blast
qed

lemma get_main_version_checked:
  assumes "get_complete_version VERSION version = Inr v" and "length v = 5"
  shows "get_main_version VERSION version =
     (if \<not> main_printable v then Inl ValueError
      else Inr (if v ! 2 = PInt 0 then printed (v ! 0) @ ''.'' @ printed (v ! 1)
                else printed (v ! 0) @ ''.'' @ printed (v ! 1) @ ''.'' @ printed (v ! 2)))"
proof -
  from assms(2) obtain a b c d e where v: "v = [a, b, c, d, e]"
    using length_five by blast
  show ?thesis
    by (simp add: get_main_version_def assms(1) index_def v py_str_printed main_printable_def)
qed

lemma complete_supplied:
  "length v = 5 \<Longrightarrow> v ! 3 \<in> set release_kinds \<Longrightarrow> get_complete_version VERSION (Some v) = Inr v"
  by (simp add: get_complete_version_def index_def)

text \<open>
  Claim C4, as amended. For a valid descriptor, supplied or the package default, whose
  joined numbers have at most 4300 decimal digits each, the main version is elements 0
  and 1 joined by a dot when the micro number (element 2) is 0, and elements 0, 1 and 2
  joined by dots otherwise; the two examples of the specification are in the witness.
  When a joined number has more digits, \<open>get_main_version\<close> raises ValueError.
\<close>

theorem get_main_version_joins:
  assumes "get_complete_version VERSION version = Inr v" and "valid_descriptor v"
  shows "(main_printable v \<longrightarrow>
            get_main_version VERSION version =
              Inr (if v ! 2 = PInt 0 then printed (v ! 0) @ ''.'' @ printed (v ! 1)
                   else printed (v ! 0) @ ''.'' @ printed (v ! 1) @ ''.'' @ printed (v ! 2)))
         \<and> (\<not> main_printable v \<longrightarrow> get_main_version VERSION version = Inl ValueError)"
  using assms get_main_version_checked [of VERSION version v]
  by (simp add: valid_descriptor_def)

theorem get_main_version_joins_witness:
  "valid_descriptor [PInt 1, PInt 2, PInt 0, PStr ''release'', PInt 0]
   \<and> main_printable [PInt 1, PInt 2, PInt 0, PStr ''release'', PInt 0]
   \<and> get_main_version [] (Some [PInt 1, PInt 2, PInt 0, PStr ''release'', PInt 0]) = Inr ''1.2''
   \<and> valid_descriptor [PInt 1, PInt 2, PInt 3, PStr ''release'', PInt 0]
   \<and> main_printable [PInt 1, PInt 2, PInt 3, PStr ''release'', PInt 0]
   \<and> get_main_version [PInt 1, PInt 2, PInt 3, PStr ''release'', PInt 0] None = Inr ''1.2.3''
   \<and> valid_descriptor [PInt (10 ^ max_str_digits), PInt 2, PInt 3, PStr ''release'', PInt 0]
   \<and> \<not> main_printable [PInt (10 ^ max_str_digits), PInt 2, PInt 3, PStr ''release'', PInt 0]
   \<and> get_main_version [] (Some [PInt (10 ^ max_str_digits), PInt 2, PInt 3, PStr ''release'', PInt 0])
       = Inl ValueError"
proof -
  let ?a = "[PInt 1, PInt 2, PInt 0, PStr ''release'', PInt 0]"
  let ?b = "[PInt 1, PInt 2, PInt 3, PStr ''release'', PInt 0]"
  let ?h = "[PInt (10 ^ max_str_digits), PInt 2, PInt 3, PStr ''release'', PInt 0]"
  have va: "valid_descriptor ?a" and vb: "valid_descriptor ?b" and vh: "valid_descriptor ?h"
    by (simp_all add: valid_descriptor_def is_nonneg_int_def release_kinds_def)
  have pa: "main_printable ?a" and pb: "main_printable ?b"
    by (simp_all add: main_printable_def printable_small)
  have ph: "\<not> main_printable ?h"
    by (simp add: main_printable_def not_printable_huge)
  have ca: "get_complete_version [] (Some ?a) = Inr ?a"
    and cb: "get_complete_version ?b None = Inr ?b"
    and ch: "get_complete_version [] (Some ?h) = Inr ?h"
    by (simp_all add: get_complete_version_def index_def release_kinds_def)
  from get_main_version_joins [OF ca va] get_main_version_joins [OF cb vb]
    get_main_version_joins [OF ch vh] va vb vh pa pb ph
  show ?thesis by simp
qed

text \<open>
  Claim C4 as stated fails for a valid descriptor with a number of 4301 digits:
  \<^verbatim>\<open>str\<close> raises ValueError and nothing is joined.
\<close>

theorem get_main_version_digit_limit:
  "valid_descriptor [PInt (10 ^ max_str_digits), PInt 0, PInt 0, PStr ''release'', PInt 0]
   \<and> get_main_version []
        (Some [PInt (10 ^ max_str_digits), PInt 0, PInt 0, PStr ''release'', PInt 0])
     = Inl ValueError"
  by (simp add: valid_descriptor_def is_nonneg_int_def release_kinds_def get_main_version_def
      get_complete_version_def index_def py_str_printed not_printable_huge)

section \<open>The matcher decides the regular expression\<close>

inductive_simps matches_Nothing [simp]: "matches Nothing s"
inductive_simps matches_Eps [simp]: "matches Eps s"
inductive_simps matches_Class [simp]: "matches (Class cs) s"
inductive_simps matches_Alt [simp]: "matches (Alt r q) s"














section \<open>Calendar fields and the formatted timestamp\<close>

lemma zero_pad_ok:
  assumes "0 < w" and "0 \<le> i" and "i < 10 ^ w"
  shows "length (zero_pad w i) = w \<and> list_all is_digit (zero_pad w i)"
proof -
  from assms(2,3) have "nat i < 10 ^ w"
    by (metis nat_less_iff of_nat_numeral of_nat_power)
  with assms(1) have len: "length (digits_of (nat i)) \<le> w" by (rule digits_of_length)
  have z: "is_digit CHR ''0''" by (simp add: is_digit_def)
  have "list_all is_digit (replicate (w - length (digits_of (nat i))) CHR ''0'')"
    using z by (simp add: list_all_iff)
  with len assms(2) show ?thesis
    by (simp add: zero_pad_def decimal_def Let_def digits_of_digits)
qed

lemma month_day_bounds:
  fixes n :: int and leap :: bool
  assumes "0 \<le> n" and "n \<le> 364"
  defines "m \<equiv> (n + 50) div 32"
  defines "p \<equiv> days_before_month ! nat m + (if 2 < m \<and> leap then 1 else 0)"
  defines "p' \<equiv> p - (days_in_month ! nat (m - 1) + (if m - 1 = 2 \<and> leap then 1 else 0))"
  shows "if n < p then 1 \<le> m - 1 \<and> m - 1 \<le> 12 \<and> 1 \<le> n - p' + 1 \<and> n - p' + 1 \<le> 31
         else 1 \<le> m \<and> m \<le> 12 \<and> 1 \<le> n - p + 1 \<and> n - p + 1 \<le> 31"
proof -
  have "1 \<le> m" "m \<le> 12" using assms(1,2) unfolding m_def by auto
  then have "m = 1 \<or> m = 2 \<or> m = 3 \<or> m = 4 \<or> m = 5 \<or> m = 6
    \<or> m = 7 \<or> m = 8 \<or> m = 9 \<or> m = 10 \<or> m = 11 \<or> m = 12" by presburger
  moreover have lo: "32 * m \<le> n + 50" and hi: "n + 50 < 32 * m + 32"
    unfolding m_def by auto
  ultimately show ?thesis
    unfolding p'_def p_def using assms(1,2)
    by (elim disjE) (simp_all add: days_before_month_def days_in_month_def)
qed

lemma ord2ymd_bounds:
  assumes "ord2ymd k = (y, m, d)"
  shows "1 \<le> m \<and> m \<le> 12 \<and> 1 \<le> d \<and> d \<le> 31"
proof -
  define a where "a = (k - 1) mod 146097"
  define b where "b = a mod 36524"
  define c where "c = b mod 1461"
  define n where "n = c mod 365"
  define n100 where "n100 = a div 36524"
  define n1 where "n1 = c div 365"
  define leap where "leap = (n1 = 3 \<and> (b div 1461 \<noteq> 24 \<or> n100 = 3))"
  define mm where "mm = (n + 50) div 32"
  define p where "p = days_before_month ! nat mm + (if 2 < mm \<and> leap then 1 else 0)"
  define p' where "p' = p - (days_in_month ! nat (mm - 1) + (if mm - 1 = 2 \<and> leap then 1 else 0))"
  have n: "0 \<le> n" "n \<le> 364" unfolding n_def by auto
  have md: "if n < p then 1 \<le> mm - 1 \<and> mm - 1 \<le> 12 \<and> 1 \<le> n - p' + 1 \<and> n - p' + 1 \<le> 31
         else 1 \<le> mm \<and> mm \<le> 12 \<and> 1 \<le> n - p + 1 \<and> n - p + 1 \<le> 31"
    unfolding p'_def p_def mm_def using n by (rule month_day_bounds)
  have "snd (ord2ymd k) = (if n1 = 4 \<or> n100 = 4 then (12, 31)
        else if n < p then (mm - 1, n - p' + 1) else (mm, n - p + 1))"
    unfolding ord2ymd_def Let_def p'_def p_def mm_def leap_def n1_def n100_def n_def c_def b_def a_def
    by (simp only: snd_conv if_distrib [of snd] cong: if_cong)
  with assms have eq: "(m, d) = (if n1 = 4 \<or> n100 = 4 then (12, 31)
        else if n < p then (mm - 1, n - p' + 1) else (mm, n - p + 1))"
    by simp
  show ?thesis
  proof (cases "n1 = 4 \<or> n100 = 4")
    case True
    with eq show ?thesis by simp
  next
    case False
    with eq md show ?thesis by (cases "n < p") simp_all
  qed
qed

lemma fromtimestamp_utc_fields:
  assumes "fromtimestamp_utc t = Inr dt"
  shows "1 \<le> year dt \<and> year dt \<le> 9999 \<and> 1 \<le> month dt \<and> month dt \<le> 12
         \<and> 1 \<le> day dt \<and> day dt \<le> 31 \<and> 0 \<le> hour dt \<and> hour dt \<le> 23
         \<and> 0 \<le> minute dt \<and> minute dt \<le> 59 \<and> 0 \<le> second dt \<and> second dt \<le> 59"
proof -
  obtain y m d where ymd: "ord2ymd (t div 86400 + 719163) = (y, m, d)"
    by (cases "ord2ymd (t div 86400 + 719163)") auto
  from ymd have md: "1 \<le> m \<and> m \<le> 12 \<and> 1 \<le> d \<and> d \<le> 31" by (rule ord2ymd_bounds)
  define secs where "secs = t mod 86400"
  have secs: "0 \<le> secs" "secs < 86400" unfolding secs_def by auto
  have "fromtimestamp_utc t =
     (if t < - (2 ^ 63) \<or> 2 ^ 63 \<le> t then Inl OverflowError
      else if y - 1900 < - (2 ^ 31) \<or> 2 ^ 31 \<le> y - 1900 then Inl OSError
           else if y < 1 \<or> 9999 < y then Inl ValueError
           else Inr \<lparr>year = y, month = m, day = d,
                      hour = secs div 3600, minute = (secs mod 3600) div 60,
                      second = secs mod 60\<rparr>)"
    unfolding fromtimestamp_utc_def Let_def ymd secs_def by (simp only: prod.case)
  with assms have dt: "dt = \<lparr>year = y, month = m, day = d, hour = secs div 3600,
      minute = (secs mod 3600) div 60, second = secs mod 60\<rparr>" and y: "1 \<le> y" "y \<le> 9999"
    by (simp_all split: if_splits)
  have "secs div 3600 \<le> 23" using secs by auto
  moreover have "0 \<le> secs div 3600" using secs by auto
  moreover have "0 \<le> (secs mod 3600) div 60" "(secs mod 3600) div 60 \<le> 59" by auto
  ultimately show ?thesis using md y by (simp add: dt)
qed

lemma decimal_year:
  assumes "1 \<le> y" and "y \<le> 9999"
  shows "list_all is_digit (decimal y) \<and> 1 \<le> length (decimal y) \<and> length (decimal y) \<le> 4
         \<and> (length (decimal y) = 4) = (1000 \<le> y)"
proof -
  from assms have d: "decimal y = digits_of (nat y)" by (simp add: decimal_def)
  from assms have "nat y < 10 ^ 4" by simp
  then have up: "length (digits_of (nat y)) \<le> 4" by (intro digits_of_length) simp_all
  have lo: "1 \<le> length (digits_of (nat y))"
    using digits_of_nonempty [of "nat y"] by (cases "digits_of (nat y)") simp_all
  have "(length (digits_of (nat y)) = 4) = (1000 \<le> y)"
  proof (cases "1000 \<le> y")
    case True
    then have "10 ^ 3 \<le> nat y" by simp
    then have "3 < length (digits_of (nat y))" by (rule digits_of_length_lower)
    with up True show ?thesis by simp
  next
    case False
    with assms have "nat y < 10 ^ 3" by simp
    then have "length (digits_of (nat y)) \<le> 3" by (intro digits_of_length) simp_all
    with False show ?thesis by simp
  qed
  with up lo show ?thesis by (simp add: d digits_of_digits)
qed

lemma strftime_output:
  assumes "fromtimestamp_utc t = Inr dt"
  shows "list_all is_digit (strftime dt)
         \<and> length (strftime dt) = length (decimal (year dt)) + 10
         \<and> 11 \<le> length (strftime dt) \<and> length (strftime dt) \<le> 14
         \<and> (length (strftime dt) = 14) = (1000 \<le> year dt)"
proof -
  note f = fromtimestamp_utc_fields [OF assms]
  have y: "list_all is_digit (decimal (year dt)) \<and> 1 \<le> length (decimal (year dt))
      \<and> length (decimal (year dt)) \<le> 4 \<and> (length (decimal (year dt)) = 4) = (1000 \<le> year dt)"
    using f by (intro decimal_year) auto
  have "length (zero_pad 2 (month dt)) = 2 \<and> list_all is_digit (zero_pad 2 (month dt))"
    using f by (intro zero_pad_ok) auto
  moreover have "length (zero_pad 2 (day dt)) = 2 \<and> list_all is_digit (zero_pad 2 (day dt))"
    using f by (intro zero_pad_ok) auto
  moreover have "length (zero_pad 2 (hour dt)) = 2 \<and> list_all is_digit (zero_pad 2 (hour dt))"
    using f by (intro zero_pad_ok) auto
  moreover have "length (zero_pad 2 (minute dt)) = 2 \<and> list_all is_digit (zero_pad 2 (minute dt))"
    using f by (intro zero_pad_ok) auto
  moreover have "length (zero_pad 2 (second dt)) = 2 \<and> list_all is_digit (zero_pad 2 (second dt))"
    using f by (intro zero_pad_ok) auto
  ultimately have "list_all is_digit (strftime dt)
      \<and> length (strftime dt) = length (decimal (year dt)) + 10"
    using y by (simp add: strftime_def)
  with y show ?thesis by auto
qed

lemma strftime_resolver_output:
  "fromtimestamp_utc t = Inr dt \<Longrightarrow> is_resolver_output (strftime dt)"
  using strftime_output [of t dt] by (simp add: is_resolver_output_def)



section \<open>The resolver and its cache\<close>

lemma body_unfold:
  "get_git_changeset_body e s =
     (if \<not> file_defined e then (Inr None, s)
      else (case git_log e (subprocess_calls s) of
              Inl err \<Rightarrow> Inl err
            | Inr stdout \<Rightarrow>
               (case py_int stdout of
                  None \<Rightarrow> Inr None
                | Some t \<Rightarrow>
                    (case fromtimestamp_utc t of
                       Inl err \<Rightarrow> if err = ValueError then Inr None else Inl err
                     | Inr dt \<Rightarrow> Inr (Some (strftime dt)))),
            s\<lparr>subprocess_calls := subprocess_calls s + 1\<rparr>))"
  by (simp add: get_git_changeset_body_def Let_def split: sum.split option.split)

lemma body_state_eq:
  "snd (get_git_changeset_body e s) =
     (if file_defined e then s\<lparr>subprocess_calls := subprocess_calls s + 1\<rparr> else s)"
  by (simp add: body_unfold)

lemma body_result:
  assumes "get_git_changeset_body e s = (Inr (Some ts), s')"
  shows "is_resolver_output ts"
proof -
  from assms have fd: "file_defined e" by (simp add: body_unfold split: if_splits)
  with assms obtain out where out: "git_log e (subprocess_calls s) = Inr out"
    by (cases "git_log e (subprocess_calls s)") (simp_all add: body_unfold)
  with assms fd obtain t where t: "py_int out = Some t"
    by (cases "py_int out") (simp_all add: body_unfold)
  with assms fd out obtain dt where dt: "fromtimestamp_utc t = Inr dt"
    by (cases "fromtimestamp_utc t") (simp_all add: body_unfold split: if_splits)
  with assms fd out t have "ts = strftime dt" by (simp add: body_unfold)
  with dt show ?thesis by (simp add: strftime_resolver_output)
qed


lemma body_result_fst:
  "fst (get_git_changeset_body e s) = Inr (Some ts) \<Longrightarrow> is_resolver_output ts"
  using body_result [of e s ts] by (cases "get_git_changeset_body e s") simp

lemma changeset_cached:
  "cache s = Some r \<Longrightarrow> get_git_changeset e s = (Inr r, s\<lparr>hits := hits s + 1\<rparr>)"
  by (simp add: get_git_changeset_def)

lemma changeset_uncached:
  assumes "cache s = None"
  shows "get_git_changeset e s =
     (case fst (get_git_changeset_body e (s\<lparr>misses := misses s + 1\<rparr>)) of
        Inl err \<Rightarrow> (Inl err, snd (get_git_changeset_body e (s\<lparr>misses := misses s + 1\<rparr>)))
      | Inr r \<Rightarrow> (Inr r, (snd (get_git_changeset_body e (s\<lparr>misses := misses s + 1\<rparr>)))\<lparr>cache := Some r\<rparr>))"
  using assms
  by (cases "get_git_changeset_body e (s\<lparr>misses := misses s + 1\<rparr>)")
     (simp add: get_git_changeset_def split: sum.split)

lemma changeset_returns_cached:
  assumes "get_git_changeset e s = (Inr r, s')"
  shows "cache s' = Some r"
proof (cases "cache s")
  case None
  from assms show ?thesis
    unfolding changeset_uncached [OF None] by (auto split: sum.splits)
next
  case (Some r')
  with assms show ?thesis by (auto simp add: changeset_cached)
qed

lemma changeset_result:
  assumes "cache_inv s" and "get_git_changeset e s = (Inr (Some ts), s')"
  shows "is_resolver_output ts"
proof (cases "cache s")
  case None
  from assms(2) have "fst (get_git_changeset_body e (s\<lparr>misses := misses s + 1\<rparr>)) = Inr (Some ts)"
    unfolding changeset_uncached [OF None] by (auto split: sum.splits)
  then show ?thesis by (rule body_result_fst)
next
  case (Some r)
  with assms show ?thesis by (auto simp add: changeset_cached cache_inv_def)
qed

lemma changeset_calls:
  "hits (snd (get_git_changeset e s)) + misses (snd (get_git_changeset e s)) = hits s + misses s + 1"
proof (cases "cache s")
  case None
  show ?thesis
    unfolding changeset_uncached [OF None] by (simp add: body_state_eq split: sum.split)
next
  case (Some r)
  then show ?thesis by (simp add: changeset_cached)
qed

lemma changeset_differs: "snd (get_git_changeset e s) \<noteq> s"
  using changeset_calls [of e s] by (cases "snd (get_git_changeset e s) = s") simp_all

lemma changeset_inv:
  assumes "cache_inv s"
  shows "cache_inv (snd (get_git_changeset e s))"
proof (cases "get_git_changeset e s")
  case (Pair r s')
  show ?thesis
  proof (cases r)
    case (Inl err)
    show ?thesis
    proof (cases "cache s")
      case None
      then show ?thesis
        unfolding changeset_uncached [OF None]
        by (simp add: body_state_eq cache_inv_def split: sum.split option.split)
          (simp add: body_result_fst)
    next
      case (Some r')
      with assms show ?thesis by (simp add: changeset_cached cache_inv_def)
    qed
  next
    case (Inr res)
    with Pair have c: "cache s' = Some res" using changeset_returns_cached by blast
    show ?thesis
    proof (cases res)
      case None
      with c Pair show ?thesis by (simp add: cache_inv_def)
    next
      case (Some ts)
      with Pair Inr assms have "is_resolver_output ts" using changeset_result by blast
      with c Pair Some show ?thesis by (simp add: cache_inv_def)
    qed
  qed
qed

lemma cache_inv_initial: "cache_inv initial_state"
  by (simp add: cache_inv_def initial_state_def)

lemma calls_cached:
  "cache s = Some r \<Longrightarrow>
   calls es s = (replicate (length es) (Inr r), s\<lparr>hits := hits s + length es\<rparr>)"
proof (induction es arbitrary: s)
  case Nil
  show ?case by simp
next
  case (Cons e es)
  from Cons.prems have "cache (s\<lparr>hits := hits s + 1\<rparr>) = Some r" by simp
  then have "calls es (s\<lparr>hits := hits s + 1\<rparr>) =
      (replicate (length es) (Inr r), s\<lparr>hits := hits s + 1\<rparr>\<lparr>hits := hits (s\<lparr>hits := hits s + 1\<rparr>) + length es\<rparr>)"
    by (rule Cons.IH)
  with Cons.prems show ?case by (simp add: changeset_cached)
qed

text \<open>
  Claim C3, as amended. Once a call of \<open>get_git_changeset\<close> has returned a value (a
  timestamp or the absent outcome), every later call of the process returns that same
  value, whatever the environment has become, and changes nothing but the hit counter:
  the body and the subprocess do not run again. The call that returned ran the body and
  the subprocess at most once.
\<close>

lemma changeset_raises:
  assumes "get_git_changeset e s = (Inl err, s')"
  shows "cache s = None \<and> cache s' = None \<and> hits s' = hits s \<and> misses s' = misses s + 1"
proof (cases "cache s")
  case None
  from assms show ?thesis
    unfolding changeset_uncached [OF None]
    by (auto simp add: body_state_eq None split: sum.splits if_splits)
next
  case (Some r)
  with assms show ?thesis by (simp add: changeset_cached)
qed

lemma changeset_miss:
  "cache s = None \<Longrightarrow> misses (snd (get_git_changeset e s)) = misses s + 1"
  by (simp add: changeset_uncached body_state_eq split: sum.split)

text \<open>
  Claim C3, as amended. Once a call of \<open>get_git_changeset\<close> has returned a value (a
  timestamp or the absent outcome), every later call of the process returns that same
  value, whatever the environment has become, and changes nothing but the hit counter:
  the body and the subprocess do not run again. The call that returned ran the body and
  the subprocess at most once. A call that raises stores nothing: the cache is as empty
  after it as before, and the next call runs the body again.
\<close>

theorem memoized_once_returned:
  "(get_git_changeset e s = (Inr r, s1) \<longrightarrow>
      calls es s1 = (replicate (length es) (Inr r), s1\<lparr>hits := hits s1 + length es\<rparr>)
      \<and> misses (snd (calls es s1)) = misses s1
      \<and> subprocess_calls (snd (calls es s1)) = subprocess_calls s1
      \<and> misses s1 \<le> misses s + 1 \<and> subprocess_calls s1 \<le> subprocess_calls s + 1)
   \<and> (get_git_changeset e s = (Inl err, s2) \<longrightarrow>
      cache s2 = cache s \<and> cache s2 = None
      \<and> misses (snd (get_git_changeset e' s2)) = misses s2 + 1)"
proof -
  have one: "calls es s1 = (replicate (length es) (Inr r), s1\<lparr>hits := hits s1 + length es\<rparr>)
      \<and> misses (snd (calls es s1)) = misses s1
      \<and> subprocess_calls (snd (calls es s1)) = subprocess_calls s1
      \<and> misses s1 \<le> misses s + 1 \<and> subprocess_calls s1 \<le> subprocess_calls s + 1"
    if ret: "get_git_changeset e s = (Inr r, s1)"
  proof -
    from ret have "cache s1 = Some r" by (rule changeset_returns_cached)
    then have c: "calls es s1 = (replicate (length es) (Inr r), s1\<lparr>hits := hits s1 + length es\<rparr>)"
      by (rule calls_cached)
    have "misses s1 \<le> misses s + 1 \<and> subprocess_calls s1 \<le> subprocess_calls s + 1"
    proof (cases "cache s")
      case None
      from ret show ?thesis
        unfolding changeset_uncached [OF None]
        by (auto simp add: body_state_eq split: sum.splits if_splits)
    next
      case (Some r')
      with ret show ?thesis by (auto simp add: changeset_cached)
    qed
    with c show ?thesis by simp
  qed
  have two: "cache s2 = cache s \<and> cache s2 = None
      \<and> misses (snd (get_git_changeset e' s2)) = misses s2 + 1"
    if "get_git_changeset e s = (Inl err, s2)"
  proof -
    from that have "cache s = None \<and> cache s2 = None \<and> hits s2 = hits s \<and> misses s2 = misses s + 1"
      by (rule changeset_raises)
    then show ?thesis by (simp add: changeset_miss)
  qed
  from one two show ?thesis by blast
qed

theorem memoized_once_returned_witness:
  "get_git_changeset (env_with_output ''1704110400'') initial_state =
     (Inr (Some ''20240101120000''),
      \<lparr>cache = Some (Some ''20240101120000''), hits = 0, misses = 1, subprocess_calls = 1\<rparr>)
   \<and> calls [env_with_output ''1'', env_without_file]
        \<lparr>cache = Some (Some ''20240101120000''), hits = 0, misses = 1, subprocess_calls = 1\<rparr> =
     ([Inr (Some ''20240101120000''), Inr (Some ''20240101120000'')],
      \<lparr>cache = Some (Some ''20240101120000''), hits = 2, misses = 1, subprocess_calls = 1\<rparr>)
   \<and> get_git_changeset (env_with_output ''9223372036854775808'') initial_state =
     (Inl OverflowError, \<lparr>cache = None, hits = 0, misses = 1, subprocess_calls = 1\<rparr>)
   \<and> misses (snd (get_git_changeset (env_with_output ''1704110400'')
        \<lparr>cache = None, hits = 0, misses = 1, subprocess_calls = 1\<rparr>)) = 2"
proof -
  have a: "get_git_changeset (env_with_output ''1704110400'') initial_state =
     (Inr (Some ''20240101120000''),
      \<lparr>cache = Some (Some ''20240101120000''), hits = 0, misses = 1, subprocess_calls = 1\<rparr>)"
    by code_simp
  have b: "get_git_changeset (env_with_output ''9223372036854775808'') initial_state =
     (Inl OverflowError, \<lparr>cache = None, hits = 0, misses = 1, subprocess_calls = 1\<rparr>)"
    by code_simp
  from memoized_once_returned
      [of "env_with_output ''1704110400''" initial_state "Some ''20240101120000''"
          "\<lparr>cache = Some (Some ''20240101120000''), hits = 0, misses = 1, subprocess_calls = 1\<rparr>"
          "[env_with_output ''1'', env_without_file]"]
    memoized_once_returned
      [of "env_with_output ''9223372036854775808''" initial_state _ _ _ OverflowError
          "\<lparr>cache = None, hits = 0, misses = 1, subprocess_calls = 1\<rparr>"
          "env_with_output ''1704110400''"]
    a b
  show ?thesis by simp
qed

text \<open>
  Claim C3 as stated fails where the body raises: the cache stores a result only when
  the body returns. A git output of \<open>2\<^sup>6\<^sup>3\<close> parses as an integer,
  \<^verbatim>\<open>fromtimestamp\<close> raises OverflowError, which \<^verbatim>\<open>except ValueError\<close> does not catch;
  the second call runs the body and the subprocess a second time.
\<close>

theorem raising_call_runs_again:
  "calls [env_with_output ''9223372036854775808'', env_with_output ''9223372036854775808'']
     initial_state =
   ([Inl OverflowError, Inl OverflowError],
    \<lparr>cache = None, hits = 0, misses = 2, subprocess_calls = 2\<rparr>)"
  by code_simp

text \<open>
  Claim C5. Unavailability is the absent result, not an error. Without a source
  location no call starts a subprocess, and the call that does the resolution (the cache
  is empty) returns absent at once, only counting the miss and storing the outcome. With
  a source location, captured output that \<^verbatim>\<open>int\<close> rejects (empty or non-numeric) makes
  that call return absent.
\<close>

theorem changeset_unavailable_is_absent:
  "(\<not> file_defined e \<longrightarrow>
      subprocess_calls (snd (get_git_changeset e s)) = subprocess_calls s
      \<and> (cache s = None \<longrightarrow>
           get_git_changeset e s = (Inr None, s\<lparr>misses := misses s + 1, cache := Some None\<rparr>)))
   \<and> (file_defined e \<and> cache s = None \<and> git_log e (subprocess_calls s) = Inr out
        \<and> py_int out = None \<longrightarrow>
      fst (get_git_changeset e s) = Inr None)"
proof (intro conjI impI)
  assume nf: "\<not> file_defined e"
  show "subprocess_calls (snd (get_git_changeset e s)) = subprocess_calls s"
  proof (cases "cache s")
    case None
    show ?thesis unfolding changeset_uncached [OF None]
      using nf by (simp add: body_unfold)
  next
    case (Some r)
    then show ?thesis by (simp add: changeset_cached)
  qed
next
  assume nf: "\<not> file_defined e" and c: "cache s = None"
  show "get_git_changeset e s = (Inr None, s\<lparr>misses := misses s + 1, cache := Some None\<rparr>)"
    unfolding changeset_uncached [OF c] using nf by (simp add: body_unfold)
next
  assume a: "file_defined e \<and> cache s = None \<and> git_log e (subprocess_calls s) = Inr out
        \<and> py_int out = None"
  then have c: "cache s = None" by simp
  show "fst (get_git_changeset e s) = Inr None"
    unfolding changeset_uncached [OF c] using a by (simp add: body_unfold)
qed

theorem changeset_unavailable_is_absent_witness:
  "\<not> file_defined env_without_file
   \<and> get_git_changeset env_without_file initial_state =
       (Inr None, \<lparr>cache = Some None, hits = 0, misses = 1, subprocess_calls = 0\<rparr>)
   \<and> py_int [] = None
   \<and> fst (get_git_changeset (env_with_output []) initial_state) = Inr None
   \<and> py_int ''no commits'' = None
   \<and> fst (get_git_changeset (env_with_output ''no commits'') initial_state) = Inr None"
proof -
  have a: "\<not> file_defined env_without_file" and b: "cache initial_state = None"
    by (simp_all add: env_without_file_def initial_state_def)
  have c: "py_int [] = None" and d: "py_int ''no commits'' = None" by code_simp+
  have e: "file_defined (env_with_output out)"
    and f: "git_log (env_with_output out) (subprocess_calls initial_state) = Inr out" for out
    by (simp_all add: env_with_output_def)
  from changeset_unavailable_is_absent [of env_without_file initial_state]
    changeset_unavailable_is_absent [of "env_with_output []" initial_state "[]"]
    changeset_unavailable_is_absent [of "env_with_output ''no commits''" initial_state "''no commits''"]
    a b c d e f
  show ?thesis by (simp add: initial_state_def)
qed




section \<open>Properties of the full version string\<close>

lemma is_dev_build_checked:
  "length v = 5 \<Longrightarrow> is_dev_build v = Inr (v ! 3 = PStr ''alpha'' \<and> v ! 4 = PInt 0)"
  by (simp add: is_dev_build_def index_def)

lemma mapping_short_code:
  "kind \<in> set release_kinds \<Longrightarrow> kind \<noteq> PStr ''release'' \<Longrightarrow> mapping kind = Some (short_code kind)"
  by (auto simp add: release_kinds_def mapping_def short_code_def)

lemma short_code_suffix_checked:
  assumes "length v = 5" and "v ! 3 \<in> set release_kinds"
  shows "short_code_suffix v =
     (if v ! 3 = PStr ''release'' then Inr []
      else if printable (v ! 4) then Inr (short_code (v ! 3) @ printed (v ! 4))
      else Inl ValueError)"
  using assms by (simp add: short_code_suffix_def index_def mapping_short_code py_str_printed)

lemma get_main_version_again:
  assumes "get_complete_version VERSION version = Inr v"
    and "length v = 5" and "v ! 3 \<in> set release_kinds"
  shows "get_main_version VERSION (Some v) = get_main_version VERSION version"
  using get_main_version_checked [OF assms(1,2)]
    get_main_version_checked [OF complete_supplied [OF assms(2,3)] assms(2)]
  by simp

lemma get_version_unprintable:
  assumes "get_complete_version VERSION version = Inr v"
    and "length v = 5" and "v ! 3 \<in> set release_kinds" and "\<not> main_printable v"
  shows "get_version VERSION e s version = (Inl ValueError, s)"
proof -
  from assms have "get_main_version VERSION (Some v) = Inl ValueError"
    using get_main_version_checked [OF complete_supplied [OF assms(2,3)] assms(2)] by simp
  then show ?thesis by (simp add: get_version_def assms(1))
qed

lemma get_version_checked:
  assumes "get_complete_version VERSION version = Inr v"
    and "length v = 5" and "v ! 3 \<in> set release_kinds"
    and "get_main_version VERSION (Some v) = Inr main"
  shows "get_version VERSION e s version =
     (if v ! 3 = PStr ''alpha'' \<and> v ! 4 = PInt 0
      then (case fst (get_git_changeset e s) of
              Inl err \<Rightarrow> (Inl err, snd (get_git_changeset e s))
            | Inr g \<Rightarrow> (Inr (main @ (if truthy g then ''.dev'' @ the g else [])),
                         snd (get_git_changeset e s)))
      else if v ! 3 = PStr ''release'' then (Inr main, s)
      else if printable (v ! 4) then (Inr (main @ short_code (v ! 3) @ printed (v ! 4)), s)
      else (Inl ValueError, s))"
proof (cases "v ! 3 = PStr ''alpha'' \<and> v ! 4 = PInt 0")
  case True
  with assms(2) have d: "is_dev_build v = Inr True" by (simp add: is_dev_build_checked)
  from True show ?thesis
    by (cases "get_git_changeset e s")
       (simp add: get_version_def assms(1,4) d split: sum.split)
next
  case False
  with assms(2) have d: "is_dev_build v = Inr False" by (simp add: is_dev_build_checked)
  from False show ?thesis
    by (auto simp add: get_version_def assms(1,4) d short_code_suffix_checked [OF assms(2,3)])
qed

lemma get_version_state:
  "snd (get_version VERSION e s version) = s
   \<or> snd (get_version VERSION e s version) = snd (get_git_changeset e s)"
  by (cases "get_git_changeset e s")
     (auto simp add: get_version_def split: sum.splits bool.splits)

lemma get_version_inv:
  "cache_inv s \<Longrightarrow> cache_inv (snd (get_version VERSION e s version))"
  using get_version_state [of VERSION e s version] changeset_inv [of s e] by auto

lemma example_resolution:
  "get_git_changeset (env_with_output ''1704110400'') initial_state =
     (Inr (Some ''20240101120000''),
      \<lparr>cache = Some (Some ''20240101120000''), hits = 0, misses = 1, subprocess_calls = 1\<rparr>)"
  by code_simp

lemma example_no_changeset:
  "get_git_changeset (env_with_output []) initial_state =
     (Inr None, \<lparr>cache = Some None, hits = 0, misses = 1, subprocess_calls = 1\<rparr>)"
  by code_simp

lemma example_overflow:
  "get_git_changeset (env_with_output ''9223372036854775808'') initial_state =
     (Inl OverflowError, \<lparr>cache = None, hits = 0, misses = 1, subprocess_calls = 1\<rparr>)"
  by code_simp

text \<open>
  Claim C8, as amended. For a completed descriptor that passes the check,
  \<open>get_version\<close> calls the changeset resolver exactly when the release kind is alpha,
  the serial is 0 and the main version can be formatted (no joined number beyond the
  digit limit of \<^verbatim>\<open>str\<close>): then the process is left as that one resolver call leaves
  it (one more hit or miss), and in every other case the process is left as it was. So
  the process changes if and only if those three conditions hold.
\<close>

theorem get_version_effects:
  assumes "get_complete_version VERSION version = Inr v"
    and "length v = 5" and "v ! 3 \<in> set release_kinds"
  shows "(v ! 3 = PStr ''alpha'' \<and> v ! 4 = PInt 0 \<and> main_printable v \<longrightarrow>
            snd (get_version VERSION e s version) = snd (get_git_changeset e s)
            \<and> hits (snd (get_version VERSION e s version))
                + misses (snd (get_version VERSION e s version)) = hits s + misses s + 1)
         \<and> (\<not> (v ! 3 = PStr ''alpha'' \<and> v ! 4 = PInt 0 \<and> main_printable v) \<longrightarrow>
            snd (get_version VERSION e s version) = s)
         \<and> (snd (get_version VERSION e s version) \<noteq> s) =
             (v ! 3 = PStr ''alpha'' \<and> v ! 4 = PInt 0 \<and> main_printable v)"
proof (cases "main_printable v")
  case True
  then obtain main where "get_main_version VERSION (Some v) = Inr main"
    using get_main_version_checked [OF complete_supplied [OF assms(2,3)] assms(2)] by simp
  with assms have "snd (get_version VERSION e s version) =
      (if v ! 3 = PStr ''alpha'' \<and> v ! 4 = PInt 0 then snd (get_git_changeset e s) else s)"
    by (simp add: get_version_checked split: sum.split)
  with True show ?thesis by (simp add: changeset_calls changeset_differs)
next
  case False
  with assms have "get_version VERSION e s version = (Inl ValueError, s)"
    by (rule get_version_unprintable)
  with False show ?thesis by simp
qed

theorem get_version_effects_witness:
  "get_complete_version [] (Some [PInt 2, PInt 0, PInt 0, PStr ''alpha'', PInt 0])
     = Inr [PInt 2, PInt 0, PInt 0, PStr ''alpha'', PInt 0]
   \<and> main_printable [PInt 2, PInt 0, PInt 0, PStr ''alpha'', PInt 0]
   \<and> snd (get_version [] (env_with_output ''1704110400'') initial_state
            (Some [PInt 2, PInt 0, PInt 0, PStr ''alpha'', PInt 0]))
     = \<lparr>cache = Some (Some ''20240101120000''), hits = 0, misses = 1, subprocess_calls = 1\<rparr>
   \<and> get_complete_version [PInt 2, PInt 0, PInt 0, PStr ''beta'', PInt 3] None
     = Inr [PInt 2, PInt 0, PInt 0, PStr ''beta'', PInt 3]
   \<and> snd (get_version [PInt 2, PInt 0, PInt 0, PStr ''beta'', PInt 3]
            (env_with_output ''1704110400'') initial_state None)
     = initial_state"
proof -
  let ?a = "[PInt 2, PInt 0, PInt 0, PStr ''alpha'', PInt 0]"
  let ?b = "[PInt 2, PInt 0, PInt 0, PStr ''beta'', PInt 3]"
  have a: "get_complete_version [] (Some ?a) = Inr ?a"
    and b: "get_complete_version ?b None = Inr ?b"
    by (simp_all add: get_complete_version_def index_def release_kinds_def)
  have la: "length ?a = 5" and ka: "?a ! 3 \<in> set release_kinds"
    and lb: "length ?b = 5" and kb: "?b ! 3 \<in> set release_kinds"
    by (simp_all add: release_kinds_def)
  have pa: "main_printable ?a" by (simp add: main_printable_def printable_small)
  from get_version_effects [OF a la ka, of "env_with_output ''1704110400''" initial_state]
    get_version_effects [OF b lb kb, of "env_with_output ''1704110400''" initial_state]
    a b pa example_resolution
  show ?thesis by simp
qed

text \<open>
  Claim C8 as stated fails for an alpha descriptor with serial 0 whose major number has
  4301 digits: \<open>get_main_version\<close> raises ValueError before the resolver is reached,
  and the process is left as it was.
\<close>

theorem unprintable_dev_build_skips_resolver:
  "get_complete_version [] (Some [PInt (10 ^ max_str_digits), PInt 0, PInt 0, PStr ''alpha'', PInt 0])
     = Inr [PInt (10 ^ max_str_digits), PInt 0, PInt 0, PStr ''alpha'', PInt 0]
   \<and> get_version [] (env_with_output ''1704110400'') initial_state
        (Some [PInt (10 ^ max_str_digits), PInt 0, PInt 0, PStr ''alpha'', PInt 0])
     = (Inl ValueError, initial_state)"
proof -
  let ?h = "[PInt (10 ^ max_str_digits), PInt 0, PInt 0, PStr ''alpha'', PInt 0]"
  have c: "get_complete_version [] (Some ?h) = Inr ?h"
    by (simp add: get_complete_version_def index_def release_kinds_def)
  have l: "length ?h = 5" and k: "?h ! 3 \<in> set release_kinds"
    by (simp_all add: release_kinds_def)
  have p: "\<not> main_printable ?h" by (simp add: main_printable_def not_printable_huge)
  from c get_version_unprintable [OF c l k p] show ?thesis by simp
qed

text \<open>
  Claim C10. When the release kind is one of alpha, beta, rc, release, every kind that
  reaches the branch for non-releases is a key of the short-code mapping: the lookup
  raises no KeyError, neither in the suffix nor in \<open>get_version\<close> outside the
  development branch, where \<open>get_version\<close> returns whenever the numbers it prints are
  within the digit limit of \<^verbatim>\<open>str\<close>.
\<close>

theorem mapping_lookup_defined:
  assumes "length v = 5" and "v ! 3 \<in> set release_kinds"
  shows "(v ! 3 \<noteq> PStr ''release'' \<longrightarrow> v ! 3 \<in> dom mapping)
         \<and> short_code_suffix v \<noteq> Inl KeyError
         \<and> (\<not> (v ! 3 = PStr ''alpha'' \<and> v ! 4 = PInt 0) \<longrightarrow>
              fst (get_version VERSION e s (Some v)) \<noteq> Inl KeyError)
         \<and> (\<not> (v ! 3 = PStr ''alpha'' \<and> v ! 4 = PInt 0) \<and> main_printable v
              \<and> printable (v ! 4) \<longrightarrow>
              (\<exists>out. get_version VERSION e s (Some v) = (Inr out, s)))"
proof -
  note c = complete_supplied [OF assms, of VERSION]
  have one: "v ! 3 \<noteq> PStr ''release'' \<longrightarrow> v ! 3 \<in> dom mapping"
    using assms(2) mapping_short_code by blast
  have two: "short_code_suffix v \<noteq> Inl KeyError"
    using assms by (simp add: short_code_suffix_checked)
  have three: "fst (get_version VERSION e s (Some v)) \<noteq> Inl KeyError
      \<and> (main_printable v \<and> printable (v ! 4) \<longrightarrow>
            (\<exists>out. get_version VERSION e s (Some v) = (Inr out, s)))"
    if nd: "\<not> (v ! 3 = PStr ''alpha'' \<and> v ! 4 = PInt 0)"
  proof (cases "main_printable v")
    case True
    then obtain main where m: "get_main_version VERSION (Some v) = Inr main"
      using get_main_version_checked [OF c assms(1)] by simp
    show ?thesis using nd get_version_checked [OF c assms m, of e s] by auto
  next
    case False
    with c assms have "get_version VERSION e s (Some v) = (Inl ValueError, s)"
      by (rule get_version_unprintable)
    with False show ?thesis by simp
  qed
  from one two three show ?thesis by blast
qed

theorem mapping_lookup_defined_witness:
  "length [PInt 2, PInt 0, PInt 0, PStr ''rc'', PInt 1] = 5
   \<and> [PInt 2, PInt 0, PInt 0, PStr ''rc'', PInt 1] ! 3 \<in> set release_kinds
   \<and> PStr ''rc'' \<in> dom mapping
   \<and> short_code_suffix [PInt 2, PInt 0, PInt 0, PStr ''rc'', PInt 1] \<noteq> Inl KeyError
   \<and> main_printable [PInt 2, PInt 0, PInt 0, PStr ''rc'', PInt 1]
   \<and> printable (PInt 1)
   \<and> fst (get_version [] env_without_file initial_state
             (Some [PInt 2, PInt 0, PInt 0, PStr ''rc'', PInt 1])) \<noteq> Inl KeyError
   \<and> (\<exists>out. get_version [] env_without_file initial_state
               (Some [PInt 2, PInt 0, PInt 0, PStr ''rc'', PInt 1]) = (Inr out, initial_state))"
proof -
  let ?c = "[PInt 2, PInt 0, PInt 0, PStr ''rc'', PInt 1]"
  have l: "length ?c = 5" and k: "?c ! 3 \<in> set release_kinds"
    by (simp_all add: release_kinds_def)
  have p: "main_printable ?c" and q: "printable (PInt 1)"
    by (simp_all add: main_printable_def printable_small)
  from mapping_lookup_defined [OF l k, of "[]" env_without_file initial_state] l k p q
  show ?thesis by simp
qed

text \<open>
  Claim C1, as amended. For every valid descriptor, supplied or the package default,
  whose main version can be formatted, \<open>get_version\<close> is decided by three cases. Alpha
  with serial 0: what the resolver call gives decides, the main version with \<open>.dev\<close> and
  the timestamp if it returns one, the main version alone if it returns absent, and the
  resolver's exception if it raises. Any other kind but release: the main version, the
  short code (\<open>a\<close>, \<open>b\<close>, \<open>rc\<close>) and the serial, or ValueError when the serial has more
  digits than \<^verbatim>\<open>str\<close> prints. Release: the main version alone. When the main version
  cannot be formatted, \<open>get_version\<close> raises ValueError.
\<close>

theorem get_version_suffix:
  assumes "get_complete_version VERSION version = Inr v"
    and "valid_descriptor v" and "cache_inv s"
  shows "(\<not> main_printable v \<longrightarrow> get_version VERSION e s version = (Inl ValueError, s))
    \<and> (main_printable v \<longrightarrow>
     (\<exists>main. get_main_version VERSION version = Inr main \<and>
     (if v ! 3 = PStr ''alpha'' \<and> v ! 4 = PInt 0
      then (case get_git_changeset e s of
              (Inl err, s') \<Rightarrow> get_version VERSION e s version = (Inl err, s')
            | (Inr None, s') \<Rightarrow> get_version VERSION e s version = (Inr main, s')
            | (Inr (Some ts), s') \<Rightarrow>
                get_version VERSION e s version = (Inr (main @ ''.dev'' @ ts), s'))
      else if v ! 3 \<noteq> PStr ''release''
      then (if printable (v ! 4)
            then get_version VERSION e s version =
                   (Inr (main @ short_code (v ! 3) @ printed (v ! 4)), s)
            else get_version VERSION e s version = (Inl ValueError, s))
      else get_version VERSION e s version = (Inr main, s))))"
proof -
  from assms(2) have len: "length v = 5" and kind: "v ! 3 \<in> set release_kinds"
    by (simp_all add: valid_descriptor_def)
  have one: "get_version VERSION e s version = (Inl ValueError, s)" if "\<not> main_printable v"
    using assms(1) len kind that by (rule get_version_unprintable)
  have two: "\<exists>main. get_main_version VERSION version = Inr main \<and>
     (if v ! 3 = PStr ''alpha'' \<and> v ! 4 = PInt 0
      then (case get_git_changeset e s of
              (Inl err, s') \<Rightarrow> get_version VERSION e s version = (Inl err, s')
            | (Inr None, s') \<Rightarrow> get_version VERSION e s version = (Inr main, s')
            | (Inr (Some ts), s') \<Rightarrow>
                get_version VERSION e s version = (Inr (main @ ''.dev'' @ ts), s'))
      else if v ! 3 \<noteq> PStr ''release''
      then (if printable (v ! 4)
            then get_version VERSION e s version =
                   (Inr (main @ short_code (v ! 3) @ printed (v ! 4)), s)
            else get_version VERSION e s version = (Inl ValueError, s))
      else get_version VERSION e s version = (Inr main, s))"
    if mp: "main_printable v"
  proof -
    from mp obtain main where m0: "get_main_version VERSION version = Inr main"
      using get_main_version_checked [OF assms(1) len] by simp
    then have m: "get_main_version VERSION (Some v) = Inr main"
      using get_main_version_again [OF assms(1) len kind] by simp
    note gv = get_version_checked [OF assms(1) len kind m, of e s]
    have "case get_git_changeset e s of
              (Inl err, s') \<Rightarrow> get_version VERSION e s version = (Inl err, s')
            | (Inr None, s') \<Rightarrow> get_version VERSION e s version = (Inr main, s')
            | (Inr (Some ts), s') \<Rightarrow>
                get_version VERSION e s version = (Inr (main @ ''.dev'' @ ts), s')"
      if dev: "v ! 3 = PStr ''alpha'' \<and> v ! 4 = PInt 0"
    proof (cases "get_git_changeset e s")
      case (Pair r s')
      show ?thesis
      proof (cases r)
        case (Inl err)
        with Pair dev gv show ?thesis by simp
      next
        case (Inr g)
        show ?thesis
        proof (cases g)
          case None
          with Pair Inr dev gv show ?thesis by (simp add: truthy_def)
        next
          case (Some ts)
          with Pair Inr assms(3) have "is_resolver_output ts"
            using changeset_result by blast
          then have "ts \<noteq> []" by (auto simp add: is_resolver_output_def)
          with Pair Inr Some dev gv show ?thesis by (simp add: truthy_def)
        qed
      qed
    qed
    with gv m0 show ?thesis by auto
  qed
  from one two show ?thesis by blast
qed

theorem get_version_suffix_witness:
  "valid_descriptor [PInt 2, PInt 0, PInt 0, PStr ''alpha'', PInt 0] \<and> cache_inv initial_state
   \<and> get_version [] (env_with_output ''1704110400'') initial_state
        (Some [PInt 2, PInt 0, PInt 0, PStr ''alpha'', PInt 0])
     = (Inr ''2.0.dev20240101120000'',
        \<lparr>cache = Some (Some ''20240101120000''), hits = 0, misses = 1, subprocess_calls = 1\<rparr>)
   \<and> get_version [] (env_with_output []) initial_state
        (Some [PInt 2, PInt 0, PInt 0, PStr ''alpha'', PInt 0])
     = (Inr ''2.0'', \<lparr>cache = Some None, hits = 0, misses = 1, subprocess_calls = 1\<rparr>)
   \<and> get_version [] (env_with_output ''9223372036854775808'') initial_state
        (Some [PInt 2, PInt 0, PInt 0, PStr ''alpha'', PInt 0])
     = (Inl OverflowError, \<lparr>cache = None, hits = 0, misses = 1, subprocess_calls = 1\<rparr>)
   \<and> valid_descriptor [PInt 2, PInt 0, PInt 0, PStr ''beta'', PInt 3]
   \<and> get_version [] env_without_file initial_state
        (Some [PInt 2, PInt 0, PInt 0, PStr ''beta'', PInt 3])
     = (Inr ''2.0b3'', initial_state)
   \<and> valid_descriptor [PInt 2, PInt 0, PInt 0, PStr ''release'', PInt 0]
   \<and> get_version [PInt 2, PInt 0, PInt 0, PStr ''release'', PInt 0] env_without_file
        initial_state None
     = (Inr ''2.0'', initial_state)
   \<and> valid_descriptor [PInt 2, PInt 0, PInt 0, PStr ''alpha'', PInt 1]
   \<and> get_version [] env_without_file initial_state
        (Some [PInt 2, PInt 0, PInt 0, PStr ''alpha'', PInt 1])
     = (Inr ''2.0a1'', initial_state)
   \<and> valid_descriptor [PInt 2, PInt 0, PInt 0, PStr ''rc'', PInt 1]
   \<and> get_version [] env_without_file initial_state
        (Some [PInt 2, PInt 0, PInt 0, PStr ''rc'', PInt 1])
     = (Inr ''2.0rc1'', initial_state)
   \<and> valid_descriptor [PInt (10 ^ max_str_digits), PInt 0, PInt 0, PStr ''rc'', PInt 1]
   \<and> get_version [] env_without_file initial_state
        (Some [PInt (10 ^ max_str_digits), PInt 0, PInt 0, PStr ''rc'', PInt 1])
     = (Inl ValueError, initial_state)"
proof -
  let ?a = "[PInt 2, PInt 0, PInt 0, PStr ''alpha'', PInt 0]"
  let ?b = "[PInt 2, PInt 0, PInt 0, PStr ''beta'', PInt 3]"
  let ?r = "[PInt 2, PInt 0, PInt 0, PStr ''release'', PInt 0]"
  let ?a1 = "[PInt 2, PInt 0, PInt 0, PStr ''alpha'', PInt 1]"
  let ?c = "[PInt 2, PInt 0, PInt 0, PStr ''rc'', PInt 1]"
  let ?h = "[PInt (10 ^ max_str_digits), PInt 0, PInt 0, PStr ''rc'', PInt 1]"
  have va: "valid_descriptor ?a" and vb: "valid_descriptor ?b" and vr: "valid_descriptor ?r"
    and va1: "valid_descriptor ?a1" and vc: "valid_descriptor ?c" and vh: "valid_descriptor ?h"
    by (simp_all add: valid_descriptor_def is_nonneg_int_def release_kinds_def)
  have ca: "get_complete_version [] (Some ?a) = Inr ?a"
    and cb: "get_complete_version [] (Some ?b) = Inr ?b"
    and cr: "get_complete_version ?r None = Inr ?r"
    and ca1: "get_complete_version [] (Some ?a1) = Inr ?a1"
    and cc: "get_complete_version [] (Some ?c) = Inr ?c"
    and ch: "get_complete_version [] (Some ?h) = Inr ?h"
    by (simp_all add: get_complete_version_def index_def release_kinds_def)
  have pa: "main_printable ?a" and pb: "main_printable ?b" and pr: "main_printable ?r"
    and pa1: "main_printable ?a1" and pc: "main_printable ?c"
    and p1: "printable (PInt 1)" and p3: "printable (PInt 3)"
    by (simp_all add: main_printable_def printable_small)
  have ph: "\<not> main_printable ?h" by (simp add: main_printable_def not_printable_huge)
  have ma: "get_main_version [] (Some ?a) = Inr ''2.0''"
    and mb: "get_main_version [] (Some ?b) = Inr ''2.0''"
    and mr: "get_main_version ?r None = Inr ''2.0''"
    and ma1: "get_main_version [] (Some ?a1) = Inr ''2.0''"
    and mc: "get_main_version [] (Some ?c) = Inr ''2.0''"
    by code_simp+
  note i = cache_inv_initial
  from get_version_suffix [OF ca va i, of "env_with_output ''1704110400''"] pa ma example_resolution
  have one: "get_version [] (env_with_output ''1704110400'') initial_state (Some ?a)
     = (Inr ''2.0.dev20240101120000'',
        \<lparr>cache = Some (Some ''20240101120000''), hits = 0, misses = 1, subprocess_calls = 1\<rparr>)"
    by simp
  from get_version_suffix [OF ca va i, of "env_with_output []"] pa ma example_no_changeset
  have two: "get_version [] (env_with_output []) initial_state (Some ?a)
     = (Inr ''2.0'', \<lparr>cache = Some None, hits = 0, misses = 1, subprocess_calls = 1\<rparr>)"
    by simp
  from get_version_suffix [OF ca va i, of "env_with_output ''9223372036854775808''"] pa ma
    example_overflow
  have raise: "get_version [] (env_with_output ''9223372036854775808'') initial_state (Some ?a)
     = (Inl OverflowError, \<lparr>cache = None, hits = 0, misses = 1, subprocess_calls = 1\<rparr>)"
    by simp
  from get_version_suffix [OF cb vb i, of env_without_file] pb p3 mb
  have three: "get_version [] env_without_file initial_state (Some ?b) = (Inr ''2.0b3'', initial_state)"
    by (simp add: short_code_def)
  from get_version_suffix [OF cr vr i, of env_without_file] pr mr
  have four: "get_version ?r env_without_file initial_state None = (Inr ''2.0'', initial_state)"
    by simp
  from get_version_suffix [OF ca1 va1 i, of env_without_file] pa1 p1 ma1
  have five: "get_version [] env_without_file initial_state (Some ?a1) = (Inr ''2.0a1'', initial_state)"
    by (simp add: short_code_def)
  from get_version_suffix [OF cc vc i, of env_without_file] pc p1 mc
  have six: "get_version [] env_without_file initial_state (Some ?c) = (Inr ''2.0rc1'', initial_state)"
    by (simp add: short_code_def)
  from get_version_suffix [OF ch vh i, of env_without_file] ph
  have seven: "get_version [] env_without_file initial_state (Some ?h) = (Inl ValueError, initial_state)"
    by simp
  from va vb vr va1 vc vh i one two raise three four five six seven show ?thesis by simp
qed

text \<open>
  Claim C1 as stated fails for two valid descriptors: with alpha and serial 0, a
  resolver that raises (git output \<open>2\<^sup>6\<^sup>3\<close>) makes \<open>get_version\<close> raise instead of
  returning a version; and a major number of 4301 digits makes it raise ValueError.
\<close>

theorem get_version_raises:
  "valid_descriptor [PInt 2, PInt 0, PInt 0, PStr ''alpha'', PInt 0]
   \<and> get_version [] (env_with_output ''9223372036854775808'') initial_state
        (Some [PInt 2, PInt 0, PInt 0, PStr ''alpha'', PInt 0])
     = (Inl OverflowError, \<lparr>cache = None, hits = 0, misses = 1, subprocess_calls = 1\<rparr>)
   \<and> valid_descriptor [PInt (10 ^ max_str_digits), PInt 0, PInt 0, PStr ''release'', PInt 0]
   \<and> get_version [] env_without_file initial_state
        (Some [PInt (10 ^ max_str_digits), PInt 0, PInt 0, PStr ''release'', PInt 0])
     = (Inl ValueError, initial_state)"
proof -
  let ?a = "[PInt 2, PInt 0, PInt 0, PStr ''alpha'', PInt 0]"
  let ?h = "[PInt (10 ^ max_str_digits), PInt 0, PInt 0, PStr ''release'', PInt 0]"
  have va: "valid_descriptor ?a" and vh: "valid_descriptor ?h"
    by (simp_all add: valid_descriptor_def is_nonneg_int_def release_kinds_def)
  have one: "get_version [] (env_with_output ''9223372036854775808'') initial_state (Some ?a)
     = (Inl OverflowError, \<lparr>cache = None, hits = 0, misses = 1, subprocess_calls = 1\<rparr>)"
    by code_simp
  have c: "get_complete_version [] (Some ?h) = Inr ?h"
    by (simp add: get_complete_version_def index_def release_kinds_def)
  have l: "length ?h = 5" and k: "?h ! 3 \<in> set release_kinds"
    by (simp_all add: release_kinds_def)
  have p: "\<not> main_printable ?h" by (simp add: main_printable_def not_printable_huge)
  from va vh one get_version_unprintable [OF c l k p] show ?thesis by simp
qed

end
